theory Spec2Isabelle
  imports Main
begin

section \<open>Errors\<close>

text \<open>
  The exceptions the module throws. \<open>Error msg\<close> is \<^verbatim>\<open>new Error(msg)\<close>;
  \<open>TypeError (Some msg)\<close> is \<^verbatim>\<open>new TypeError(msg)\<close>, and \<open>TypeError None\<close> is a
  TypeError raised by the engine itself (a method call on a value that has no such
  method), whose message is the engine's.
\<close>

datatype error = Error string | TypeError "string option"

section \<open>Values\<close>

text \<open>
  The JavaScript values the model passes around: the expression argument, the globals and
  formatters objects, the binding context and the call arguments. An object is the list
  of its own enumerable properties; \<open>map_of\<close> reads a property. Numbers and function
  values are left out: nothing that is proved here looks into one.
\<close>

datatype jsval =
    JUndefined
  | JNull
  | JBool bool
  | JString string
  | JObject "(string \<times> jsval) list"

section \<open>strings.js: pulling literals out and putting them back\<close>

text \<open>
  Expression text is a list of code units, a \<open>char\<close> each. The three delimiters of the character
  class \<^verbatim>\<open>['"\/]\<close> are the single quote, the double quote and the slash.
\<close>

definition isQuote :: "char \<Rightarrow> bool" where
  "isQuote c \<longleftrightarrow> c = CHR 0x27 \<or> c = CHR 0x22 \<or> c = CHR 0x2F"

text \<open>
  \<^verbatim>\<open>quoteRegex = /(['"\/])(\\\1|[^\1])*?\1/g\<close>.
  \<open>quoteRegex_tail q s\<close> matches \<^verbatim>\<open>(\\\1|[^\1])*?\1\<close> at the start of \<open>s\<close>, the group
  \<^verbatim>\<open>\1\<close> being \<open>q\<close>, and returns the matched text and the rest. The quantifier is lazy:
  the closing delimiter is tried first. Otherwise one iteration is made, its first
  alternative a backslash followed by the delimiter, its second alternative the class
  \<^verbatim>\<open>[^\1]\<close>. Inside a class \<^verbatim>\<open>\1\<close> is no back-reference but the code unit 1, so the
  class matches every code unit except that one. When the rest of the match fails
  after the first alternative, the engine backtracks into the second one, which takes
  the backslash alone, and the delimiter behind it then closes the match.
\<close>

fun quoteRegex_tail :: "char \<Rightarrow> string \<Rightarrow> (string \<times> string) option" where
  "quoteRegex_tail q [] = None"
| "quoteRegex_tail q [c] = (if c = q then Some ([c], []) else None)"
| "quoteRegex_tail q (c # d # ds) =
     (if c = q then Some ([c], d # ds)
      else if c = CHR 0x5C \<and> d = q then
        (case quoteRegex_tail q ds of
           Some (m, r) \<Rightarrow> Some (c # d # m, r)
         | None \<Rightarrow> Some ([c, d], ds))
      else if c = CHR 0x01 then None
      else (case quoteRegex_tail q (d # ds) of
              Some (m, r) \<Rightarrow> Some (c # m, r)
            | None \<Rightarrow> None))"

text \<open>A match of \<open>quoteRegex\<close> at the start of the text: the matched literal and the rest.\<close>

fun quoteRegex_at :: "string \<Rightarrow> (string \<times> string) option" where
  "quoteRegex_at [] = None"
| "quoteRegex_at (q # s) =
     (if isQuote q then
        (case quoteRegex_tail q s of
           Some (m, r) \<Rightarrow> Some (q # m, r)
         | None \<Rightarrow> None)
      else None)"

lemma quoteRegex_tail_length:
  "quoteRegex_tail q s = Some (m, r) \<Longrightarrow> length r < length s"
  by (induction q s arbitrary: m r rule: quoteRegex_tail.induct)
     (auto split: if_splits option.splits)

lemma quoteRegex_at_length:
  "quoteRegex_at s = Some (m, r) \<Longrightarrow> length r < length s"
  by (cases s) (auto split: if_splits option.splits dest: quoteRegex_tail_length)

text \<open>
  \<^verbatim>\<open>expr.replace(quoteRegex, function(str, quote) { strings.push(str); return quote + quote; })\<close>:
  the global replace tries a match at each position from left to right; a match is
  replaced and the scan goes on behind it, an unmatched code unit is copied. The result
  is the new text and the literals pushed, in order.
\<close>

function replace_quoteRegex :: "string \<Rightarrow> string \<times> string list" where
  "replace_quoteRegex [] = ([], [])"
| "replace_quoteRegex (c # cs) =
     (case quoteRegex_at (c # cs) of
        Some (str, r) \<Rightarrow>
          (let (t, pushed) = replace_quoteRegex r in (c # c # t, str # pushed))
      | None \<Rightarrow>
          (let (t, pushed) = replace_quoteRegex cs in (c # t, pushed)))"
  by pat_completeness auto
termination
  by (relation "measure length")
     (auto simp del: quoteRegex_at.simps dest: quoteRegex_at_length)

text \<open>
  \<^verbatim>\<open>emptyQuoteExpr = /(['"\/])\1/g\<close> and
  \<^verbatim>\<open>expr.replace(emptyQuoteExpr, function() { return strings.shift(); })\<close>:
  each pair of equal delimiters is replaced by the head of the queue. \<^verbatim>\<open>shift\<close> on an
  empty array returns \<^verbatim>\<open>undefined\<close>, which \<^verbatim>\<open>replace\<close> turns into the text
  \<^verbatim>\<open>undefined\<close>.
\<close>

fun replace_emptyQuoteExpr :: "string \<Rightarrow> string list \<Rightarrow> string" where
  "replace_emptyQuoteExpr (c # d # cs) q =
     (if isQuote c \<and> d = c then
        (case q of
           [] \<Rightarrow> ''undefined'' @ replace_emptyQuoteExpr cs []
         | str # q' \<Rightarrow> str @ replace_emptyQuoteExpr cs q')
      else c # replace_emptyQuoteExpr (d # cs) q)"
| "replace_emptyQuoteExpr cs q = cs"

text \<open>
  The module variable \<^verbatim>\<open>strings\<close> is \<^verbatim>\<open>null\<close> (\<open>None\<close>) or the array of pending
  literals. An array, also the empty one, is truthy.
\<close>

type_synonym strings_var = "string list option"

text \<open>
  \<open>pullOutStrings\<close> assigns \<^verbatim>\<open>strings = []\<close> before it calls \<^verbatim>\<open>expr.replace\<close>. On a
  value that is not a string that call is a TypeError of the engine (the value has no
  method \<^verbatim>\<open>replace\<close>), raised with the empty array already assigned.
\<close>

definition pullOutStrings :: "jsval \<Rightarrow> strings_var \<Rightarrow> (error + string) \<times> strings_var" where
  "pullOutStrings expr strings =
     (case strings of
        Some _ \<Rightarrow> (Inl (Error ''putInStrings must be called after pullOutStrings.''), strings)
      | None \<Rightarrow>
          (case expr of
             JString e \<Rightarrow> (let (t, pushed) = replace_quoteRegex e in (Inr t, Some pushed))
           | _ \<Rightarrow> (Inl (TypeError None), Some [])))"

definition putInStrings :: "string \<Rightarrow> strings_var \<Rightarrow> (error + string) \<times> strings_var" where
  "putInStrings expr strings =
     (case strings of
        None \<Rightarrow> (Inl (Error ''pullOutStrings must be called before putInStrings.''), strings)
      | Some q \<Rightarrow> (Inr (replace_emptyQuoteExpr expr q), None))"

section \<open>expressions.js\<close>

subsection \<open>Helpers of the language\<close>

text \<open>\<^verbatim>\<open>Array.prototype.join\<close> on an array of strings.\<close>

fun join :: "string \<Rightarrow> string list \<Rightarrow> string" where
  "join sep [] = []"
| "join sep [x] = x"
| "join sep (x # y # ys) = x @ sep @ join sep (y # ys)"

text \<open>\<^verbatim>\<open>expr.split('\n')\<close>: the lines of a text, never an empty array.\<close>

fun split_lines :: "string \<Rightarrow> string list" where
  "split_lines [] = [[]]"
| "split_lines (c # cs) =
     (if c = CHR 0x0A then [] # split_lines cs
      else (case split_lines cs of
              [] \<Rightarrow> [[c]]
            | l # ls \<Rightarrow> (c # l) # ls))"

text \<open>
  \<^verbatim>\<open>lines[lines.length - 1] = 'return ' + lines[lines.length - 1]; expr = lines.join('\n')\<close>
\<close>

definition return_last_line :: "string \<Rightarrow> string" where
  "return_last_line expr =
     (let lines = split_lines expr
      in join [CHR 0x0A] (butlast lines @ [''return '' @ last lines]))"

text \<open>
  What \<^verbatim>\<open>expr + '|'\<close> makes of the expression argument, and the truth value of a value
  in a condition.
\<close>

fun toString :: "jsval \<Rightarrow> string" where
  "toString JUndefined = ''undefined''"
| "toString JNull = ''null''"
| "toString (JBool b) = (if b then ''true'' else ''false'')"
| "toString (JString s) = s"
| "toString (JObject ps) = ''[object Object]''"

fun truthy :: "jsval \<Rightarrow> bool" where
  "truthy JUndefined = False"
| "truthy JNull = False"
| "truthy (JBool b) = b"
| "truthy (JString s) = (s \<noteq> [])"
| "truthy (JObject ps) = True"

text \<open>
  \<^verbatim>\<open>Object.keys(v)\<close> with the values \<^verbatim>\<open>v[key]\<close>: the own enumerable properties. A
  boolean has none; a string has its indices, each holding one code unit.
\<close>

fun decimal :: "nat \<Rightarrow> string" where
  "decimal n =
     (if n < 10 then [''0123456789'' ! n]
      else decimal (n div 10) @ [''0123456789'' ! (n mod 10)])"

declare decimal.simps [simp del]

fun own_properties :: "jsval \<Rightarrow> (string \<times> jsval) list" where
  "own_properties (JObject ps) = ps"
| "own_properties (JString s) = map (\<lambda>i. (decimal i, JString [s ! i])) [0 ..< length s]"
| "own_properties v = []"

text \<open>
  \<^verbatim>\<open>/(\s*\||$)/\<close>: \<open>setterRegex_at s\<close> says that the pattern matches at the start of
  \<open>s\<close>: white space and then a pipe, or the end of the text.
\<close>

definition isSpace :: "char \<Rightarrow> bool" where
  "isSpace c \<longleftrightarrow> c \<in> set [CHR 0x09, CHR 0x0A, CHR 0x0B, CHR 0x0C, CHR 0x0D, CHR 0x20, CHR 0xA0]"

fun setterRegex_at :: "string \<Rightarrow> bool" where
  "setterRegex_at [] = True"
| "setterRegex_at (c # cs) = (c = CHR ''|'' \<or> (isSpace c \<and> cs \<noteq> [] \<and> setterRegex_at cs))"

text \<open>
  \<^verbatim>\<open>expr.replace(/(\s*\||$)/, ins + '$1')\<close>: the pattern has no \<^verbatim>\<open>g\<close> flag, so only the
  leftmost match is replaced, by \<open>ins\<close> followed by the matched text.
\<close>

fun replace_setterRegex :: "string \<Rightarrow> string \<Rightarrow> string" where
  "replace_setterRegex ins [] = ins"
| "replace_setterRegex ins (c # cs) =
     (if setterRegex_at (c # cs) then ins @ c # cs
      else c # replace_setterRegex ins cs)"

subsection \<open>The module and what it is given\<close>

text \<open>
  \<^verbatim>\<open>bindArguments\<close> returns a closure over \<^verbatim>\<open>func\<close> and \<^verbatim>\<open>args\<close>; \<open>parse\<close> then sets its
  property \<^verbatim>\<open>expr\<close>. A function built by the \<^verbatim>\<open>Function\<close> constructor is taken as what
  it does when applied: from the binding context and the list of arguments to a result.
  \<open>ref\<close> is the identity of the closure object, the thing that \<^verbatim>\<open>===\<close> compares.
\<close>

record 'r callable =
  ref :: nat
  func :: "jsval \<Rightarrow> jsval list \<Rightarrow> 'r"
  args :: "jsval list"
  expr :: "string option"

text \<open>
  The module requires \<^verbatim>\<open>./formatters\<close> and \<^verbatim>\<open>./property-chains\<close> and calls the
  \<^verbatim>\<open>Function\<close> constructor of the engine. The three are parameters here. Each of the two
  parsers returns the rewritten text or throws; \<open>Function\<close> is given the parameter
  names and the body and returns the function, or the message of the error it throws.
\<close>

record 'r deps =
  parseFormatters :: "string \<Rightarrow> error + string"
  parseExpression :: "string \<Rightarrow> (string \<rightharpoonup> jsval) \<Rightarrow> error + string"
  Function :: "string list \<Rightarrow> string + (jsval \<Rightarrow> jsval list \<Rightarrow> 'r)"

text \<open>
  The variables of the module: \<^verbatim>\<open>strings\<close> (of strings.js), \<^verbatim>\<open>valueProperty\<close>,
  \<^verbatim>\<open>cache\<close> and \<^verbatim>\<open>exports.globals\<close>; \<open>fresh\<close> is the identity the next object gets.
\<close>

record 'r module =
  strings :: strings_var
  valueProperty :: string
  cache :: "string \<rightharpoonup> 'r callable"
  globals :: "(string \<times> jsval) list"
  fresh :: nat

definition module_init :: "'r module" where
  "module_init =
     \<lparr>strings = None, valueProperty = ''_value_'', cache = Map.empty, globals = [], fresh = 0\<rparr>"

text \<open>Running a function of strings.js on the module's \<^verbatim>\<open>strings\<close>.\<close>

definition in_strings ::
  "(strings_var \<Rightarrow> (error + 'a) \<times> strings_var) \<Rightarrow> 'r module \<Rightarrow> (error + 'a) \<times> 'r module" where
  "in_strings f st = (case f (strings st) of (res, s') \<Rightarrow> (res, st\<lparr>strings := s'\<rparr>))"

text \<open>Sequencing: an exception ends the call and keeps the state reached.\<close>

definition andThen ::
  "('s \<Rightarrow> (error + 'a) \<times> 's) \<Rightarrow> ('a \<Rightarrow> 's \<Rightarrow> (error + 'b) \<times> 's) \<Rightarrow> 's \<Rightarrow> (error + 'b) \<times> 's" where
  "andThen m k st = (case m st of (Inl e, st') \<Rightarrow> (Inl e, st') | (Inr a, st') \<Rightarrow> k a st')"

definition pure :: "error + 'a \<Rightarrow> 's \<Rightarrow> (error + 'a) \<times> 's" where
  "pure res st = (res, st)"

subsection \<open>getVariables, compileExpression, bindArguments (the same in both revisions)\<close>

definition getVariables :: "'r module \<Rightarrow> jsval \<Rightarrow> string list \<Rightarrow> (string \<rightharpoonup> jsval)" where
  "getVariables st globals' extraArgs =
     (let variables = Map.empty;
          variables = variables ++ map_of (globals st);
          variables = (if truthy globals' then variables ++ map_of (own_properties globals')
                       else variables)
      in variables ++ map_of (map (\<lambda>key. (key, JNull)) extraArgs))"

definition bindArguments ::
  "(jsval \<Rightarrow> jsval list \<Rightarrow> 'r) \<Rightarrow> jsval list \<Rightarrow> 'r module \<Rightarrow> (error + 'r callable) \<times> 'r module" where
  "bindArguments func' args' st =
     (Inr \<lparr>ref = fresh st, func = func', args = args', expr = None\<rparr>,
      st\<lparr>fresh := Suc (fresh st)\<rparr>)"

text \<open>
  A call \<^verbatim>\<open>binder.apply(this, arguments)\<close> of the closure:
  \<^verbatim>\<open>func.apply(this, args.concat(slice.call(arguments)))\<close>.
\<close>

definition invoke :: "'r callable \<Rightarrow> jsval \<Rightarrow> jsval list \<Rightarrow> 'r" where
  "invoke binder this arguments = func binder this (args binder @ arguments)"

definition compileExpression ::
  "'r deps \<Rightarrow> string \<Rightarrow> string \<Rightarrow> jsval \<Rightarrow> jsval \<Rightarrow> string list \<Rightarrow> 'r module
     \<Rightarrow> (error + 'r callable) \<times> 'r module" where
  "compileExpression D original expr' globals' formatters extraArgs st =
     (let args' = [''_globals_'', ''_formatters_''] @ extraArgs @ [expr']
      in case Function D args' of
           Inl message \<Rightarrow>
             (Inl (Error (''Bad expression: '' @ original @ [CHR 0x0A] @
                          ''Compiled expression:'' @ [CHR 0x0A] @ expr' @ [CHR 0x0A] @ message)),
              st)
         | Inr func' \<Rightarrow> bindArguments func' [globals', formatters] st)"

text \<open>
  The part of \<open>parse\<close> both revisions share, from \<^verbatim>\<open>strings.pullOutStrings(expr)\<close> to the
  end: \<open>original\<close> is the text the error message shows, \<open>expr'\<close> the value handed to
  \<open>pullOutStrings\<close>.
\<close>

definition parse_body ::
  "'r deps \<Rightarrow> string \<Rightarrow> string \<Rightarrow> bool \<Rightarrow> jsval \<Rightarrow> jsval \<Rightarrow> jsval \<Rightarrow> string list \<Rightarrow> 'r module
     \<Rightarrow> (error + 'r callable) \<times> 'r module" where
  "parse_body D cacheKey original isSetter expr' globals' formatters extraArgs =
     andThen (in_strings (pullOutStrings expr')) (\<lambda>e1.
     andThen (pure (parseFormatters D e1)) (\<lambda>e2.
     andThen (\<lambda>st. pure (parseExpression D e2 (getVariables st globals' extraArgs)) st) (\<lambda>e3.
     andThen (in_strings (putInStrings (if isSetter then e3 else return_last_line e3))) (\<lambda>e4.
     andThen (compileExpression D original e4 globals' formatters extraArgs) (\<lambda>func' st.
       (let func' = func'\<lparr>expr := Some e4\<rparr>
        in (Inr func', st\<lparr>cache := (cache st)(cacheKey \<mapsto> func')\<rparr>)))))))"

text \<open>
  \<^verbatim>\<open>var cacheKey = expr + '|' + extraArgs.join(',')\<close>. The cache is an object read by
  \<^verbatim>\<open>cache[cacheKey]\<close>; a key holds a pipe, so it is none of the names an object inherits,
  and the cache is a map from keys to closures.
\<close>

definition cacheKey :: "string \<Rightarrow> string list \<Rightarrow> string" where
  "cacheKey e extraArgs = e @ ''|'' @ join '','' extraArgs"

text \<open>
  What the keys need of a name, and what every JavaScript identifier has: it is not
  empty and holds neither a pipe nor a comma.
\<close>

definition argName :: "string \<Rightarrow> bool" where
  "argName x \<longleftrightarrow> x \<noteq> [] \<and> CHR ''|'' \<notin> set x \<and> CHR '','' \<notin> set x"

subsection \<open>First revision: extra argument names as trailing arguments\<close>

definition parse ::
  "'r deps \<Rightarrow> jsval \<Rightarrow> jsval \<Rightarrow> jsval \<Rightarrow> string list \<Rightarrow> 'r module
     \<Rightarrow> (error + 'r callable) \<times> 'r module" where
  "parse D expr' globals' formatters extraArgs st =
     (case expr' of
        JString e \<Rightarrow>
          (case cache st (cacheKey e extraArgs) of
             Some func' \<Rightarrow> (Inr func', st)
           | None \<Rightarrow>
               (let original = e;
                    isSetter = (extraArgs \<noteq> [] \<and> hd extraArgs = valueProperty st)
                in parse_body D (cacheKey e extraArgs) original isSetter (JString e)
                     globals' formatters extraArgs st))
      | _ \<Rightarrow> (Inl (TypeError (Some ''Invalid expr, must be type String'')), st))"

text \<open>
  \<^verbatim>\<open>expr.charAt(0)\<close> on a value that is not a string is a TypeError of the engine.
\<close>

definition parseSetter ::
  "'r deps \<Rightarrow> jsval \<Rightarrow> jsval \<Rightarrow> jsval \<Rightarrow> string list \<Rightarrow> 'r module
     \<Rightarrow> (error + 'r callable) \<times> 'r module" where
  "parseSetter D expr' globals' formatters extraArgs st =
     (case expr' of
        JString e \<Rightarrow>
          (let e' = (if e \<noteq> [] \<and> hd e = CHR ''!''
                     then replace_setterRegex '' = !_value_'' (tl e)
                     else replace_setterRegex '' = _value_'' e)
           in parse D (JString e') globals' formatters (valueProperty st # extraArgs) st)
      | _ \<Rightarrow> (Inl (TypeError None), st))"

subsection \<open>Second revision: extra argument names as an array\<close>

text \<open>
  \<open>extraArgs\<close> is \<open>None\<close> when the argument is not an array. The test
  \<^verbatim>\<open>expr.charAt(0) === '!'\<close> is only reached in a setter; on a value that is not a string
  it is a TypeError of the engine.
\<close>

definition parse2 ::
  "'r deps \<Rightarrow> jsval \<Rightarrow> jsval \<Rightarrow> jsval \<Rightarrow> string list option \<Rightarrow> 'r module
     \<Rightarrow> (error + 'r callable) \<times> 'r module" where
  "parse2 D expr' globals' formatters extraArgs' st =
     (let extraArgs = (case extraArgs' of None \<Rightarrow> [] | Some xs \<Rightarrow> xs);
          key = cacheKey (toString expr') extraArgs
      in case cache st key of
           Some func' \<Rightarrow> (Inr func', st)
         | None \<Rightarrow>
             (let original = toString expr';
                  isSetter = (extraArgs \<noteq> [] \<and> hd extraArgs = valueProperty st)
              in if isSetter then
                   (case expr' of
                      JString e \<Rightarrow>
                        (if e \<noteq> [] \<and> hd e = CHR ''!'' then
                           parse_body D key original isSetter (JString (tl e))
                             globals' formatters extraArgs
                             (st\<lparr>valueProperty := ''!'' @ valueProperty st\<rparr>)
                         else
                           parse_body D key original isSetter expr'
                             globals' formatters extraArgs st)
                    | _ \<Rightarrow> (Inl (TypeError None), st))
                 else
                   parse_body D key original isSetter expr'
                     globals' formatters extraArgs st))"

text \<open>
  \<^verbatim>\<open>extraArgs.unshift(valueProperty)\<close> comes before \<^verbatim>\<open>expr.replace\<close>, which on a value
  that is not a string is a TypeError of the engine.
\<close>

definition parseSetter2 ::
  "'r deps \<Rightarrow> jsval \<Rightarrow> jsval \<Rightarrow> jsval \<Rightarrow> string list option \<Rightarrow> 'r module
     \<Rightarrow> (error + 'r callable) \<times> 'r module" where
  "parseSetter2 D expr' globals' formatters extraArgs' st =
     (let extraArgs = (case extraArgs' of None \<Rightarrow> [] | Some xs \<Rightarrow> xs);
          extraArgs = valueProperty st # extraArgs
      in case expr' of
           JString e \<Rightarrow>
             parse2 D (JString (replace_setterRegex '' = _value_'' e))
               globals' formatters (Some extraArgs) st
         | _ \<Rightarrow> (Inl (TypeError None), st))"

subsection \<open>The setter rewrite as the specification words it\<close>

text \<open>
  The specification: \<open>parseSetter\<close> rewrites the expression into an assignment against
  the name \<^verbatim>\<open>_value_\<close>, inserted before the first pipe segment, or at the end when no
  pipe is present; the shorthand \<^verbatim>\<open>!e\<close> is rewritten to \<^verbatim>\<open>e = !_value_\<close>. The pipe
  segment starts at the white space in front of the pipe. \<open>setter_text\<close> is this
  description, to be compared with what the code computes with its regular expression.
\<close>

definition before_pipe :: "string \<Rightarrow> string" where
  "before_pipe s = takeWhile (\<lambda>c. c \<noteq> CHR ''|'') s"

definition from_pipe :: "string \<Rightarrow> string" where
  "from_pipe s = dropWhile (\<lambda>c. c \<noteq> CHR ''|'') s"

definition trailing_space :: "string \<Rightarrow> string" where
  "trailing_space t = rev (takeWhile isSpace (rev t))"

definition without_trailing_space :: "string \<Rightarrow> string" where
  "without_trailing_space t = rev (dropWhile isSpace (rev t))"

definition assign_before_pipe :: "string \<Rightarrow> string \<Rightarrow> string" where
  "assign_before_pipe ins s =
     (if CHR ''|'' \<in> set s
      then without_trailing_space (before_pipe s) @ ins @
           trailing_space (before_pipe s) @ from_pipe s
      else s @ ins)"

definition setter_text :: "string \<Rightarrow> string" where
  "setter_text e =
     (if e \<noteq> [] \<and> hd e = CHR ''!'' then assign_before_pipe '' = !_value_'' (tl e)
      else assign_before_pipe '' = _value_'' e)"

subsection \<open>Sequences of calls\<close>

text \<open>
  What a caller can do to a module: call \<open>parse\<close>, call \<open>parseSetter\<close>, or assign a
  property of \<^verbatim>\<open>exports.globals\<close>. \<open>calls\<close> runs a list of such steps on the first
  revision, \<open>calls2\<close> on the second, keeping the state and dropping the results.
\<close>

datatype 'a request =
    Parse jsval jsval jsval 'a
  | ParseSetter jsval jsval jsval 'a
  | SetGlobal string jsval

fun set_property :: "string \<Rightarrow> jsval \<Rightarrow> (string \<times> jsval) list \<Rightarrow> (string \<times> jsval) list" where
  "set_property k v [] = [(k, v)]"
| "set_property k v (p # ps) = (if fst p = k then (k, v) # ps else p # set_property k v ps)"

fun perform :: "'r deps \<Rightarrow> string list request \<Rightarrow> 'r module \<Rightarrow> 'r module" where
  "perform D (Parse e g f xs) st = snd (parse D e g f xs st)"
| "perform D (ParseSetter e g f xs) st = snd (parseSetter D e g f xs st)"
| "perform D (SetGlobal k v) st = st\<lparr>globals := set_property k v (globals st)\<rparr>"

fun perform2 :: "'r deps \<Rightarrow> string list option request \<Rightarrow> 'r module \<Rightarrow> 'r module" where
  "perform2 D (Parse e g f xs) st = snd (parse2 D e g f xs st)"
| "perform2 D (ParseSetter e g f xs) st = snd (parseSetter2 D e g f xs st)"
| "perform2 D (SetGlobal k v) st = st\<lparr>globals := set_property k v (globals st)\<rparr>"

definition calls :: "'r deps \<Rightarrow> string list request list \<Rightarrow> 'r module \<Rightarrow> 'r module" where
  "calls D cs st = fold (perform D) cs st"

definition calls2 :: "'r deps \<Rightarrow> string list option request list \<Rightarrow> 'r module \<Rightarrow> 'r module" where
  "calls2 D cs st = fold (perform2 D) cs st"

subsection \<open>An instance of the parameters\<close>

text \<open>
  A small instance, for evaluating the module on concrete calls: the two parsers
  return the text as it is, and the engine rejects the body \<^verbatim>\<open>return )\<close> and takes any
  other body for a function that returns its binding context.
\<close>

definition plain_deps :: "jsval deps" where
  "plain_deps =
     \<lparr>parseFormatters = Inr,
      parseExpression = (\<lambda>e variables. Inr e),
      Function = (\<lambda>args'. if last args' = ''return )'' then Inl ''Unexpected token )''
                            else Inr (\<lambda>this arguments. this))\<rparr>"

section \<open>property-chains.js: guarded chains\<close>

text \<open>
  Modelled from the spec: \<^verbatim>\<open>property-chains.js\<close> (\<^verbatim>\<open>parseExpression\<close>) is not among the
  sources; only its tests are. What follows is the rewriting of a chain
  \<^verbatim>\<open>root.link1.link2...\<close> of context-bound names as the specification describes it and
  as the tests show it: the root becomes an access on \<^verbatim>\<open>this\<close>; for a chain of two or
  more links, each intermediate value is assigned to the next reference temporary
  \<^verbatim>\<open>_ref1\<close>, \<^verbatim>\<open>_ref2\<close>, ..., tested against \<^verbatim>\<open>null\<close>, and dereferenced only when the test
  passes; the guards nest to the right in one conditional expression.
\<close>

datatype jexpr =
    This
  | Ref nat
  | Member jexpr string
  | Assign nat jexpr
  | Void0
  | IfNull jexpr jexpr jexpr

text \<open>
  Modelled from the spec: \<open>guard_links n obj links\<close> guards the accesses \<open>links\<close> on the
  expression \<open>obj\<close>, the next free temporary being \<open>n\<close>. \<open>IfNull c a b\<close> is
  \<^verbatim>\<open>c == null ? a : b\<close>, \<open>Assign n e\<close> is \<^verbatim>\<open>(_refn = e)\<close>, \<open>Void0\<close> is \<^verbatim>\<open>void 0\<close>.
\<close>

fun guard_links :: "nat \<Rightarrow> jexpr \<Rightarrow> string list \<Rightarrow> jexpr" where
  "guard_links n obj [] = obj"
| "guard_links n obj (link # links) =
     IfNull (Assign n obj) Void0 (guard_links (Suc n) (Member (Ref n) link) links)"

definition chain_expression :: "string \<Rightarrow> string list \<Rightarrow> jexpr" where
  "chain_expression root links = guard_links 1 (Member This root) links"

text \<open>
  Modelled from the spec: the text of the rewritten chain, as the tests of
  \<^verbatim>\<open>parseExpression\<close> expect it: the declaration of the temporaries on a line of its own,
  then the guarded expression in parentheses; a single name has neither.
\<close>

fun render :: "jexpr \<Rightarrow> string" where
  "render This = ''this''"
| "render (Ref n) = ''_ref'' @ decimal n"
| "render (Member e name) = render e @ ''.'' @ name"
| "render (Assign n e) = ''(_ref'' @ decimal n @ '' = '' @ render e @ '')''"
| "render Void0 = ''void 0''"
| "render (IfNull c a b) = render c @ '' == null ? '' @ render a @ '' : '' @ render b"

definition chain_text :: "string \<Rightarrow> string list \<Rightarrow> string" where
  "chain_text root links =
     (if links = [] then render (chain_expression root links)
      else ''var '' @ join '', '' (map (\<lambda>n. ''_ref'' @ decimal n) [1 ..< Suc (length links)]) @
           '';'' @ [CHR 0x0A] @ ''('' @ render (chain_expression root links) @ '')'')"

text \<open>
  The engine on such an expression. \<open>property P v name\<close> is the value of \<^verbatim>\<open>v.name\<close> for a
  value \<open>v\<close> that is neither \<^verbatim>\<open>null\<close> nor \<^verbatim>\<open>undefined\<close>: an own property of an object,
  and otherwise what \<open>P\<close> gives (a property inherited from a prototype, the length of a
  string; \<^verbatim>\<open>undefined\<close> when there is none). \<open>get\<close> is the access itself, a TypeError on
  \<^verbatim>\<open>null\<close> and \<^verbatim>\<open>undefined\<close>. Getters that throw are code of the caller and not part of
  this. The temporaries are a function from their numbers to their values.
\<close>

definition nullish :: "jsval \<Rightarrow> bool" where
  "nullish v \<longleftrightarrow> v = JNull \<or> v = JUndefined"

fun property :: "(jsval \<Rightarrow> string \<Rightarrow> jsval) \<Rightarrow> jsval \<Rightarrow> string \<Rightarrow> jsval" where
  "property P (JObject ps) name = (case map_of ps name of Some w \<Rightarrow> w | None \<Rightarrow> P (JObject ps) name)"
| "property P v name = P v name"

definition get :: "(jsval \<Rightarrow> string \<Rightarrow> jsval) \<Rightarrow> jsval \<Rightarrow> string \<Rightarrow> error + jsval" where
  "get P v name = (if nullish v then Inl (TypeError None) else Inr (property P v name))"

fun eval ::
  "(jsval \<Rightarrow> string \<Rightarrow> jsval) \<Rightarrow> jsval \<Rightarrow> jexpr \<Rightarrow> (nat \<Rightarrow> jsval) \<Rightarrow> error + jsval \<times> (nat \<Rightarrow> jsval)" where
  "eval P this This t = Inr (this, t)"
| "eval P this (Ref n) t = Inr (t n, t)"
| "eval P this (Member e name) t =
     (case eval P this e t of
        Inl err \<Rightarrow> Inl err
      | Inr (v, t') \<Rightarrow> (case get P v name of Inl err \<Rightarrow> Inl err | Inr w \<Rightarrow> Inr (w, t')))"
| "eval P this (Assign n e) t =
     (case eval P this e t of
        Inl err \<Rightarrow> Inl err
      | Inr (v, t') \<Rightarrow> Inr (v, t'(n := v)))"
| "eval P this Void0 t = Inr (JUndefined, t)"
| "eval P this (IfNull c a b) t =
     (case eval P this c t of
        Inl err \<Rightarrow> Inl err
      | Inr (v, t') \<Rightarrow> if nullish v then eval P this a t' else eval P this b t')"

text \<open>
  The chain on a binding context, in the words of the specification: \<open>missing_link\<close>
  says that some link before the last one is \<^verbatim>\<open>null\<close> or \<^verbatim>\<open>undefined\<close>; \<open>terminal\<close> is the
  value at the end of the chain. \<open>short_circuit v links\<close> is the value of the accesses
  \<open>links\<close> on the value \<open>v\<close>, \<^verbatim>\<open>undefined\<close> as soon as an access is on \<^verbatim>\<open>null\<close> or
  \<^verbatim>\<open>undefined\<close>.
\<close>

fun missing_link :: "(jsval \<Rightarrow> string \<Rightarrow> jsval) \<Rightarrow> jsval \<Rightarrow> string list \<Rightarrow> bool" where
  "missing_link P v [] = False"
| "missing_link P v [name] = False"
| "missing_link P v (name # next # names) =
     (nullish (property P v name) \<or> missing_link P (property P v name) (next # names))"

fun terminal :: "(jsval \<Rightarrow> string \<Rightarrow> jsval) \<Rightarrow> jsval \<Rightarrow> string list \<Rightarrow> jsval" where
  "terminal P v [] = v"
| "terminal P v (name # names) = terminal P (property P v name) names"

fun short_circuit :: "(jsval \<Rightarrow> string \<Rightarrow> jsval) \<Rightarrow> jsval \<Rightarrow> string list \<Rightarrow> jsval" where
  "short_circuit P v [] = v"
| "short_circuit P v (name # names) =
     (if nullish v then JUndefined else short_circuit P (property P v name) names)"



text \<open>A text without any of the three delimiters.\<close>

definition plain :: "string \<Rightarrow> bool" where
  "plain s \<longleftrightarrow> (\<forall>c\<in>set s. \<not> isQuote c)"


section \<open>Properties of strings.js\<close>

lemma quoteRegex_tail_append:
  "quoteRegex_tail q s = Some (m, r) \<Longrightarrow> m @ r = s"
  by (induction q s arbitrary: m r rule: quoteRegex_tail.induct)
     (auto split: if_splits option.splits)

lemma quoteRegex_at_append:
  "quoteRegex_at s = Some (m, r) \<Longrightarrow> m @ r = s"
  by (cases s) (auto split: if_splits option.splits dest: quoteRegex_tail_append)

lemma quoteRegex_at_isQuote:
  "quoteRegex_at (c # cs) = Some (m, r) \<Longrightarrow> isQuote c"
  by (auto split: if_splits)

lemma quoteRegex_tail_closing:
  "quoteRegex_tail q (q # s) = Some ([q], s)"
  by (cases s) auto

text \<open>
  A delimiter at which no literal starts is not followed by the same delimiter: the two
  would have matched as an empty literal.
\<close>

lemma quoteRegex_at_None_next:
  "isQuote c \<Longrightarrow> quoteRegex_at (c # d # ds) = None \<Longrightarrow> d \<noteq> c"
  by (auto simp: quoteRegex_tail_closing simp del: quoteRegex_tail.simps)

lemma replace_quoteRegex_head:
  "\<exists>t. fst (replace_quoteRegex (d # ds)) = d # t"
  by (auto simp: case_prod_beta simp del: quoteRegex_at.simps split: option.splits)

text \<open>
  Putting the literals back undoes pulling them out. The placeholders are the only
  pairs of equal delimiters in the stripped text, so each takes back its own literal.
\<close>

lemma replace_roundtrip:
  "replace_emptyQuoteExpr (fst (replace_quoteRegex e)) (snd (replace_quoteRegex e)) = e"
proof (induction e rule: replace_quoteRegex.induct)
  case 1
  show ?case by simp
next
  case (2 c cs)
  show ?case
  proof (cases "quoteRegex_at (c # cs)")
    case (Some p)
    obtain str r where p: "p = (str, r)" by (cases p)
    have q: "isQuote c" using Some p quoteRegex_at_isQuote by blast
    have app: "str @ r = c # cs" using Some p quoteRegex_at_append by blast
    have ih: "replace_emptyQuoteExpr (fst (replace_quoteRegex r)) (snd (replace_quoteRegex r)) = r"
      using "2.IH"(2) Some p by blast
    have "replace_quoteRegex (c # cs) =
            (c # c # fst (replace_quoteRegex r), str # snd (replace_quoteRegex r))"
      using Some p by (simp add: case_prod_beta del: quoteRegex_at.simps)
    then show ?thesis using q ih app by simp
  next
    case None
    have ih: "replace_emptyQuoteExpr (fst (replace_quoteRegex cs)) (snd (replace_quoteRegex cs)) = cs"
      using "2.IH"(1) None by blast
    have eq: "replace_quoteRegex (c # cs) =
            (c # fst (replace_quoteRegex cs), snd (replace_quoteRegex cs))"
      using None by (simp add: case_prod_beta del: quoteRegex_at.simps)
    show ?thesis
    proof (cases cs)
      case Nil
      then show ?thesis using eq by simp
    next
      case (Cons d ds)
      obtain t where t: "fst (replace_quoteRegex cs) = d # t"
        using replace_quoteRegex_head Cons by blast
      have "\<not> (isQuote c \<and> d = c)"
        using None Cons quoteRegex_at_None_next by blast
      then show ?thesis using eq t ih by auto
    qed
  qed
qed

text \<open>
  C2. From the idle module (\<^verbatim>\<open>strings\<close> is \<^verbatim>\<open>null\<close>), for every expression text \<open>e\<close>,
  \<open>pullOutStrings\<close> returns a stripped text and leaves a table pending, and \<open>putInStrings\<close>
  on that text returns \<open>e\<close> itself and clears the table.
\<close>

theorem putInStrings_pullOutStrings:
  "\<exists>t pending. pullOutStrings (JString e) None = (Inr t, Some pending)
     \<and> putInStrings t (Some pending) = (Inr e, None)"
  by (simp add: pullOutStrings_def putInStrings_def case_prod_beta replace_roundtrip)

text \<open>
  C6. \<open>pullOutStrings\<close> with a table pending throws and changes nothing, whatever the
  argument; \<open>putInStrings\<close> with no table pending throws and changes nothing; and after a
  \<open>pullOutStrings\<close> followed by a \<open>putInStrings\<close> of any text, no table is pending and the
  next \<open>pullOutStrings\<close> of a text returns normally.
\<close>

theorem strings_alternation:
  "pullOutStrings v (Some pending) =
     (Inl (Error ''putInStrings must be called after pullOutStrings.''), Some pending)
   \<and> putInStrings t None =
     (Inl (Error ''pullOutStrings must be called before putInStrings.''), None)
   \<and> (\<exists>t1 s1 t2 t3 s3.
         pullOutStrings (JString e) None = (Inr t1, s1)
       \<and> putInStrings t s1 = (Inr t2, None)
       \<and> pullOutStrings (JString e') (snd (putInStrings t s1)) = (Inr t3, s3))"
  by (simp add: pullOutStrings_def putInStrings_def case_prod_beta)

text \<open>
  The division slashes of an expression are taken for the delimiters of a pattern
  literal: after a prefix without delimiters, the text from a slash to the next slash
  is pulled out as one literal, provided it holds no code unit 1 and its second slash
  does not follow a backslash.
\<close>

lemma quoteRegex_tail_span:
  "q \<notin> set mid \<Longrightarrow> CHR 0x01 \<notin> set mid \<Longrightarrow> mid = [] \<or> last mid \<noteq> CHR 0x5C \<Longrightarrow>
   quoteRegex_tail q (mid @ q # post) = Some (mid @ [q], post)"
proof (induction mid)
  case Nil
  show ?case by (simp add: quoteRegex_tail_closing del: quoteRegex_tail.simps)
next
  case (Cons c mid)
  have ih: "quoteRegex_tail q (mid @ q # post) = Some (mid @ [q], post)"
    using Cons by (auto split: if_splits)
  obtain d ds where d: "mid @ q # post = d # ds"
    by (cases "mid @ q # post") auto
  have "\<not> (c = CHR 0x5C \<and> d = q)"
    using Cons.prems d by (cases mid) auto
  then show ?case
    using Cons.prems ih d by auto
qed

lemma replace_quoteRegex_plain_prefix:
  "\<forall>c\<in>set pre. \<not> isQuote c \<Longrightarrow>
   replace_quoteRegex (pre @ rest) =
     (pre @ fst (replace_quoteRegex rest), snd (replace_quoteRegex rest))"
  by (induction pre) (auto simp: case_prod_beta)

lemma replace_quoteRegex_slash_span:
  assumes "\<forall>c\<in>set pre. \<not> isQuote c"
    and "CHR ''/'' \<notin> set mid" and "CHR 0x01 \<notin> set mid"
    and "mid = [] \<or> last mid \<noteq> CHR 0x5C"
  shows "replace_quoteRegex (pre @ ''/'' @ mid @ ''/'' @ post) =
           (pre @ ''//'' @ fst (replace_quoteRegex post),
            (''/'' @ mid @ ''/'') # snd (replace_quoteRegex post))"
proof -
  have "quoteRegex_tail CHR ''/'' (mid @ CHR ''/'' # post) = Some (mid @ ''/'', post)"
    using assms(2-4) by (rule quoteRegex_tail_span)
  then have "replace_quoteRegex (''/'' @ mid @ ''/'' @ post) =
           (''//'' @ fst (replace_quoteRegex post),
            (''/'' @ mid @ ''/'') # snd (replace_quoteRegex post))"
    by (simp add: isQuote_def case_prod_beta)
  then show ?thesis
    using replace_quoteRegex_plain_prefix [OF assms(1), of "''/'' @ mid @ ''/'' @ post"]
    by simp
qed

lemma pullOutStrings_division:
  "pullOutStrings (JString ''a / b + c / d'') None = (Inr ''a // d'', Some [''/ b + c /''])"
  by (simp add: pullOutStrings_def isQuote_def)

text \<open>
  C10. The text made of a slash, the code unit 1 and a slash has two bare slashes
  outside quotes, and \<open>pullOutStrings\<close> returns it as it is, with no literal pulled out:
  the class \<^verbatim>\<open>[^\1]\<close> of \<^verbatim>\<open>quoteRegex\<close> does not match the code unit 1.
\<close>

theorem pullOutStrings_slash_unit1:
  "pullOutStrings (JString [CHR ''/'', CHR 0x01, CHR ''/'']) None =
     (Inr [CHR ''/'', CHR 0x01, CHR ''/''], Some [])"
  by (simp add: pullOutStrings_def isQuote_def)

section \<open>Properties of expressions.js\<close>


subsection \<open>The shared pipeline\<close>

lemma putInStrings_cases:
  "putInStrings t s = (res, s') \<Longrightarrow>
     (s = None \<and> s' = None \<and> (\<exists>m. res = Inl m))
   \<or> (\<exists>p. s = Some p \<and> s' = None \<and> res = Inr (replace_emptyQuoteExpr t p))"
  by (auto simp: putInStrings_def split: option.splits)

lemma parse_body_Inr:
  assumes "parse_body D key orig isSetter v g f xs st = (Inr c, st')"
  shows "\<exists>body fn. Function D ([''_globals_'', ''_formatters_''] @ xs @ [body]) = Inr fn
           \<and> c = \<lparr>ref = fresh st, func = fn, args = [g, f], expr = Some body\<rparr>
           \<and> st' = st\<lparr>strings := None, fresh := Suc (fresh st), cache := (cache st)(key \<mapsto> c)\<rparr>"
  using assms
  unfolding parse_body_def andThen_def in_strings_def pure_def compileExpression_def
    bindArguments_def
  by (auto simp: Let_def split: sum.splits prod.splits dest!: putInStrings_cases)

lemma parse_body_Inl:
  assumes "parse_body D key orig isSetter v g f xs st = (Inl e, st')"
  shows "\<exists>s. st' = st\<lparr>strings := s\<rparr>"
  using assms
  unfolding parse_body_def andThen_def in_strings_def pure_def compileExpression_def
    bindArguments_def
  by (auto simp: Let_def split: sum.splits prod.splits)

lemma parse_body_cache:
  assumes "parse_body D key orig isSetter v g f xs st = (res, st')"
  shows "cache st' = cache st \<or> (\<exists>c. res = Inr c \<and> cache st' = (cache st)(key \<mapsto> c))"
proof (cases res)
  case (Inl e)
  then show ?thesis using assms parse_body_Inl by fastforce
next
  case (Inr c)
  then show ?thesis using assms parse_body_Inr [of D key orig isSetter v g f xs st c st'] by auto
qed

lemma parse_body_valueProperty:
  "valueProperty (snd (parse_body D key orig isSetter v g f xs st)) = valueProperty st"
proof (cases "parse_body D key orig isSetter v g f xs st")
  case (Pair res st')
  then show ?thesis
    using parse_body_Inl [of D key orig isSetter v g f xs st _ st']
          parse_body_Inr [of D key orig isSetter v g f xs st _ st']
    by (cases res) auto
qed

text \<open>A hit returns the cached closure and changes nothing.\<close>

lemma parse_hit:
  "cache st (cacheKey e xs) = Some c \<Longrightarrow> parse D (JString e) g f xs st = (Inr c, st)"
  by (simp add: parse_def)

lemma parse2_hit:
  "cache st (cacheKey (toString v) (case xs of None \<Rightarrow> [] | Some ys \<Rightarrow> ys)) = Some c
     \<Longrightarrow> parse2 D v g f xs st = (Inr c, st)"
  by (simp add: parse2_def)

lemma parse_Inr_cached:
  assumes "parse D (JString e) g f xs st = (Inr c, st')"
  shows "cache st' (cacheKey e xs) = Some c"
proof (cases "cache st (cacheKey e xs)")
  case None
  then have "parse_body D (cacheKey e xs) e (xs \<noteq> [] \<and> hd xs = valueProperty st) (JString e) g f xs st = (Inr c, st')"
    using assms by (simp add: parse_def)
  from parse_body_Inr [OF this] show ?thesis by auto
next
  case (Some c')
  then show ?thesis using assms by (simp add: parse_def)
qed

lemma parse2_Inr_cached:
  assumes "parse2 D v g f xs st = (Inr c, st')"
  shows "cache st' (cacheKey (toString v) (case xs of None \<Rightarrow> [] | Some ys \<Rightarrow> ys)) = Some c"
proof (cases "cache st (cacheKey (toString v) (case xs of None \<Rightarrow> [] | Some ys \<Rightarrow> ys))")
  case None
  then show ?thesis
    using assms
    by (auto simp: parse2_def Let_def split: if_splits jsval.splits dest!: parse_body_Inr)
next
  case (Some c')
  then show ?thesis using assms by (simp add: parse2_def)
qed

text \<open>No call removes or replaces an entry of the cache.\<close>

lemma parse_cache_keeps:
  assumes "cache st k = Some c"
  shows "cache (snd (parse D v g f xs st)) k = Some c"
proof (cases v)
  case (JString e)
  show ?thesis
  proof (cases "cache st (cacheKey e xs)")
    case None
    then have neq: "cacheKey e xs \<noteq> k" using assms by auto
    obtain res st' where r: "parse_body D (cacheKey e xs) e (xs \<noteq> [] \<and> hd xs = valueProperty st) (JString e) g f xs st = (res, st')"
      by (cases "parse_body D (cacheKey e xs) e (xs \<noteq> [] \<and> hd xs = valueProperty st) (JString e) g f xs st")
    from parse_body_cache [OF r] have "cache st' k = Some c" using assms neq by auto
    then show ?thesis using JString None r by (simp add: parse_def)
  next
    case (Some c')
    then show ?thesis using JString assms by (simp add: parse_def)
  qed
qed (simp_all add: parse_def assms)

lemma parseSetter_cache_keeps:
  "cache st k = Some c \<Longrightarrow> cache (snd (parseSetter D v g f xs st)) k = Some c"
  by (cases v) (simp_all add: parseSetter_def parse_cache_keeps)

lemma perform_cache_keeps:
  "cache st k = Some c \<Longrightarrow> cache (perform D x st) k = Some c"
  by (cases x) (simp_all add: parse_cache_keeps parseSetter_cache_keeps)

lemma calls_cache_keeps:
  "cache st k = Some c \<Longrightarrow> cache (calls D cs st) k = Some c"
  unfolding calls_def
  by (induction cs arbitrary: st) (simp_all add: perform_cache_keeps)

lemma parse_body_cache_keeps:
  assumes "cache st k = Some c" and "cache st key = None"
  shows "cache (snd (parse_body D key orig isSetter v g f xs st)) k = Some c"
proof -
  have neq: "key \<noteq> k" using assms by auto
  obtain res st' where r: "parse_body D key orig isSetter v g f xs st = (res, st')"
    by (cases "parse_body D key orig isSetter v g f xs st")
  from parse_body_cache [OF r] show ?thesis using assms(1) neq r by auto
qed

lemma parse2_cache_keeps:
  assumes "cache st k = Some c"
  shows "cache (snd (parse2 D v g f xs st)) k = Some c"
  using assms
  by (auto simp: parse2_def Let_def parse_body_cache_keeps split: jsval.splits option.splits)

lemma parseSetter2_cache_keeps:
  "cache st k = Some c \<Longrightarrow> cache (snd (parseSetter2 D v g f xs st)) k = Some c"
  by (cases v) (simp_all add: parseSetter2_def parse2_cache_keeps)

lemma perform2_cache_keeps:
  "cache st k = Some c \<Longrightarrow> cache (perform2 D x st) k = Some c"
  by (cases x) (simp_all add: parse2_cache_keeps parseSetter2_cache_keeps)

lemma calls2_cache_keeps:
  "cache st k = Some c \<Longrightarrow> cache (calls2 D cs st) k = Some c"
  unfolding calls2_def
  by (induction cs arbitrary: st) (simp_all add: perform2_cache_keeps)


subsection \<open>Cache keys\<close>

lemma split_at_first:
  "c \<notin> set a \<Longrightarrow> c \<notin> set b \<Longrightarrow> a @ c # s = b @ c # t \<Longrightarrow> a = b \<and> s = t"
proof (induction a arbitrary: b)
  case Nil
  then show ?case by (cases b) auto
next
  case (Cons x a)
  then show ?case by (cases b) auto
qed

lemma split_at_last:
  assumes "c \<notin> set s" and "c \<notin> set t" and "a @ c # s = b @ c # t"
  shows "a = b \<and> s = t"
proof -
  have "rev (a @ c # s) = rev (b @ c # t)" using assms(3) by simp
  then have "rev s @ c # rev a = rev t @ c # rev b" by simp
  then have "rev s = rev t \<and> rev a = rev b"
    using assms(1,2) by (intro split_at_first) auto
  then show ?thesis by simp
qed

lemma join_no_pipe:
  "\<forall>x\<in>set xs. CHR ''|'' \<notin> set x \<Longrightarrow> CHR ''|'' \<notin> set (join '','' xs)"
  by (induction "'',''" xs rule: join.induct) auto

lemma join_Cons:
  "join sep (x # xs) = (if xs = [] then x else x @ sep @ join sep xs)"
  by (cases xs) auto

lemma join_inj:
  "\<forall>x\<in>set xs. argName x \<Longrightarrow> \<forall>y\<in>set ys. argName y \<Longrightarrow>
   join '','' xs = join '','' ys \<Longrightarrow> xs = ys"
proof (induction xs arbitrary: ys)
  case Nil
  then show ?case
    by (cases ys) (auto simp: join_Cons argName_def split: if_splits)
next
  case (Cons x xs)
  show ?case
  proof (cases ys)
    case Nil
    then show ?thesis using Cons.prems by (auto simp: join_Cons argName_def split: if_splits)
  next
    case ys: (Cons y ys')
    have nx: "CHR '','' \<notin> set x" and ny: "CHR '','' \<notin> set y"
      using Cons.prems ys by (auto simp: argName_def)
    show ?thesis
    proof (cases "xs = []")
      case True
      show ?thesis
      proof (cases "ys' = []")
        case True
        then show ?thesis using \<open>xs = []\<close> Cons.prems ys by simp
      next
        case False
        then have "x = y @ CHR '','' # join '','' ys'"
          using \<open>xs = []\<close> Cons.prems ys by (simp add: join_Cons)
        then have "CHR '','' \<in> set x" by simp
        then show ?thesis using nx by simp
      qed
    next
      case False
      show ?thesis
      proof (cases "ys' = []")
        case True
        then have "y = x @ CHR '','' # join '','' xs"
          using \<open>xs \<noteq> []\<close> Cons.prems ys by (simp add: join_Cons)
        then have "CHR '','' \<in> set y" by simp
        then show ?thesis using ny by simp
      next
        case ne: False
        have "x @ CHR '','' # join '','' xs = y @ CHR '','' # join '','' ys'"
          using False ne Cons.prems ys by (simp add: join_Cons)
        then have "x = y \<and> join '','' xs = join '','' ys'"
          using nx ny by (intro split_at_first) auto
        then show ?thesis using Cons.IH [of ys'] Cons.prems ys by simp
      qed
    qed
  qed
qed

lemma cacheKey_inj:
  assumes "\<forall>x\<in>set xs. argName x" and "\<forall>y\<in>set ys. argName y"
    and "cacheKey e xs = cacheKey e' ys"
  shows "e = e' \<and> xs = ys"
proof -
  have px: "CHR ''|'' \<notin> set (join '','' xs)" and py: "CHR ''|'' \<notin> set (join '','' ys)"
    using assms(1,2) by (auto intro!: join_no_pipe simp: argName_def)
  have "e @ CHR ''|'' # join '','' xs = e' @ CHR ''|'' # join '','' ys"
    using assms(3) by (simp add: cacheKey_def)
  then have "e = e' \<and> join '','' xs = join '','' ys"
    using px py by (intro split_at_last) auto
  then show ?thesis using join_inj [OF assms(1,2)] by simp
qed


text \<open>
  C3, as amended. When a call of \<open>parse\<close> returns a closure, a later call with the same
  expression text and the same list of extra argument names returns that very closure
  and leaves the module as it is, whatever globals and formatters it is given and
  whatever calls were made in between; this holds in both revisions. And two calls whose
  extra argument names are all identifiers (not empty, without pipe and comma) have the
  same cache key only when their expression texts and their lists of names are equal.
\<close>

theorem parse_cache_identity:
  "(parse D (JString e) g f xs st = (Inr c, st1)
      \<longrightarrow> parse D (JString e) g' f' xs (calls D cs st1) = (Inr c, calls D cs st1))
   \<and> (parse2 D (JString e) g f xs2 st2 = (Inr c2, st3)
      \<longrightarrow> parse2 D (JString e) g' f' xs2 (calls2 D cs2 st3) = (Inr c2, calls2 D cs2 st3))
   \<and> ((\<forall>x\<in>set xs \<union> set ys. argName x) \<and> cacheKey e xs = cacheKey e' ys
      \<longrightarrow> e = e' \<and> xs = ys)"
proof (intro conjI impI)
  assume "parse D (JString e) g f xs st = (Inr c, st1)"
  then have "cache st1 (cacheKey e xs) = Some c" by (rule parse_Inr_cached)
  then have "cache (calls D cs st1) (cacheKey e xs) = Some c" by (rule calls_cache_keeps)
  then show "parse D (JString e) g' f' xs (calls D cs st1) = (Inr c, calls D cs st1)"
    by (rule parse_hit)
next
  assume "parse2 D (JString e) g f xs2 st2 = (Inr c2, st3)"
  then have "cache st3 (cacheKey (toString (JString e)) (case xs2 of None \<Rightarrow> [] | Some ys \<Rightarrow> ys)) = Some c2"
    by (rule parse2_Inr_cached)
  then have "cache (calls2 D cs2 st3) (cacheKey (toString (JString e)) (case xs2 of None \<Rightarrow> [] | Some ys \<Rightarrow> ys)) = Some c2"
    by (rule calls2_cache_keeps)
  then show "parse2 D (JString e) g' f' xs2 (calls2 D cs2 st3) = (Inr c2, calls2 D cs2 st3)"
    by (rule parse2_hit)
next
  assume a: "(\<forall>x\<in>set xs \<union> set ys. argName x) \<and> cacheKey e xs = cacheKey e' ys"
  then show "e = e'" using cacheKey_inj [of xs ys e e'] by auto
  from a show "xs = ys" using cacheKey_inj [of xs ys e e'] by auto
qed

text \<open>The definitions to unfold for evaluating a concrete call.\<close>

lemmas eval_defs = parse_def parse2_def parseSetter_def parseSetter2_def parse_body_def
  andThen_def in_strings_def pure_def pullOutStrings_def putInStrings_def
  compileExpression_def bindArguments_def return_last_line_def cacheKey_def
  module_init_def plain_deps_def isQuote_def isSpace_def calls_def calls2_def Let_def

theorem parse_cache_identity_witness:
  "(\<exists>c. fst (parse plain_deps (JString ''foo'') JNull JNull [''x''] module_init) = Inr c)
   \<and> fst (parse plain_deps (JString ''foo'') (JObject []) JNull [''x'']
        (calls plain_deps [Parse (JString ''bar'') JNull JNull []]
          (snd (parse plain_deps (JString ''foo'') JNull JNull [''x''] module_init))))
     = fst (parse plain_deps (JString ''foo'') JNull JNull [''x''] module_init)
   \<and> (\<exists>c. fst (parse2 plain_deps (JString ''foo'') JNull JNull (Some [''x'']) module_init) = Inr c)
   \<and> fst (parse2 plain_deps (JString ''foo'') (JObject []) JNull (Some [''x''])
        (calls2 plain_deps [ParseSetter (JString ''bar'') JNull JNull None]
          (snd (parse2 plain_deps (JString ''foo'') JNull JNull (Some [''x'']) module_init))))
     = fst (parse2 plain_deps (JString ''foo'') JNull JNull (Some [''x'']) module_init)
   \<and> argName ''x'' \<and> cacheKey ''foo'' [''x''] = cacheKey ''foo'' [''x'']"
proof -
  obtain c st1 where h1: "parse plain_deps (JString ''foo'') JNull JNull [''x''] module_init = (Inr c, st1)"
    by (simp add: eval_defs)
  obtain c2 st3 where h2: "parse2 plain_deps (JString ''foo'') JNull JNull (Some [''x'']) module_init = (Inr c2, st3)"
    by (simp add: eval_defs)
  have h3: "(\<forall>x\<in>set [''x''] \<union> set [''x'']. argName x) \<and> cacheKey ''foo'' [''x''] = cacheKey ''foo'' [''x'']"
    by (simp add: argName_def)
  note t = parse_cache_identity [of plain_deps "''foo''" JNull JNull "[''x'']" module_init c st1
      "JObject []" JNull "[Parse (JString ''bar'') JNull JNull []]"
      "Some [''x'']" module_init c2 st3 "[ParseSetter (JString ''bar'') JNull JNull None]" "[''x'']" "''foo''"]
  show ?thesis using t h1 h2 h3 by simp
qed

text \<open>
  The key does not tell the one name \<^verbatim>\<open>b,c\<close> from the two names \<^verbatim>\<open>b\<close> and \<^verbatim>\<open>c\<close>: the
  second call gets the closure compiled for the first.
\<close>

theorem cacheKey_collision:
  "cacheKey ''a'' [''b,c''] = cacheKey ''a'' [''b'', ''c''] \<and> [''b,c''] \<noteq> [''b'', ''c'']
   \<and> \<not> isl (fst (parse plain_deps (JString ''a'') JNull JNull [''b'', ''c''] module_init))
   \<and> fst (parse plain_deps (JString ''a'') JNull JNull [''b,c'']
        (snd (parse plain_deps (JString ''a'') JNull JNull [''b'', ''c''] module_init)))
     = fst (parse plain_deps (JString ''a'') JNull JNull [''b'', ''c''] module_init)"
  by (simp add: eval_defs)



subsection \<open>A call that misses the cache\<close>

lemma parse_miss:
  "cache st (cacheKey e xs) = None \<Longrightarrow>
   parse D (JString e) g f xs st =
     parse_body D (cacheKey e xs) e (xs \<noteq> [] \<and> hd xs = valueProperty st) (JString e) g f xs st"
  by (simp add: parse_def)

lemma parse2_miss:
  "cache st (cacheKey e xs) = None \<Longrightarrow>
   parse2 D (JString e) g f (Some xs) st =
     (if xs \<noteq> [] \<and> hd xs = valueProperty st \<and> e \<noteq> [] \<and> hd e = CHR ''!''
      then parse_body D (cacheKey e xs) e True (JString (tl e)) g f xs
             (st\<lparr>valueProperty := ''!'' @ valueProperty st\<rparr>)
      else parse_body D (cacheKey e xs) e (xs \<noteq> [] \<and> hd xs = valueProperty st) (JString e) g f xs st)"
  by (auto simp: parse2_def Let_def)

lemma parse2_None_args:
  "parse2 D v g f None st = parse2 D v g f (Some []) st"
  by (simp add: parse2_def)

text \<open>
  C5. When a call of \<open>parse\<close> compiles (the key is not in the cache) and returns a
  closure, the engine built a function \<open>fn\<close> from the parameter names \<^verbatim>\<open>_globals_\<close>,
  \<^verbatim>\<open>_formatters_\<close> and the extra argument names and from the body kept in the closure's
  \<^verbatim>\<open>expr\<close>; and calling the closure on any binding context with any arguments is calling
  \<open>fn\<close> on that context with the globals and formatters of the call of \<open>parse\<close> put
  before those arguments. Both revisions.
\<close>

theorem callable_invocation:
  "(cache st (cacheKey e xs) = None \<and> parse D (JString e) g f xs st = (Inr c, st1)
      \<longrightarrow> (\<exists>body fn. Function D ([''_globals_'', ''_formatters_''] @ xs @ [body]) = Inr fn
             \<and> expr c = Some body
             \<and> (\<forall>this arguments. invoke c this arguments = fn this ([g, f] @ arguments))))
   \<and> (cache st2 (cacheKey e xs) = None \<and> parse2 D (JString e) g f (Some xs) st2 = (Inr c2, st3)
      \<longrightarrow> (\<exists>body fn. Function D ([''_globals_'', ''_formatters_''] @ xs @ [body]) = Inr fn
             \<and> expr c2 = Some body
             \<and> (\<forall>this arguments. invoke c2 this arguments = fn this ([g, f] @ arguments))))"
proof (intro conjI impI)
  assume a: "cache st (cacheKey e xs) = None \<and> parse D (JString e) g f xs st = (Inr c, st1)"
  then have "parse_body D (cacheKey e xs) e (xs \<noteq> [] \<and> hd xs = valueProperty st) (JString e) g f xs st = (Inr c, st1)"
    using parse_miss [of st e xs D g f] by simp
  from parse_body_Inr [OF this]
  show "\<exists>body fn. Function D ([''_globals_'', ''_formatters_''] @ xs @ [body]) = Inr fn
             \<and> expr c = Some body
             \<and> (\<forall>this arguments. invoke c this arguments = fn this ([g, f] @ arguments))"
    by (auto simp: invoke_def)
next
  assume a: "cache st2 (cacheKey e xs) = None \<and> parse2 D (JString e) g f (Some xs) st2 = (Inr c2, st3)"
  then have "\<exists>isSetter v st0. parse_body D (cacheKey e xs) e isSetter v g f xs st0 = (Inr c2, st3)"
    using parse2_miss [of st2 e xs D g f] by (cases "xs \<noteq> [] \<and> hd xs = valueProperty st2 \<and> e \<noteq> [] \<and> hd e = CHR ''!''") (simp; blast)+
  then obtain isSetter v st0 where "parse_body D (cacheKey e xs) e isSetter v g f xs st0 = (Inr c2, st3)"
    by blast
  from parse_body_Inr [OF this]
  show "\<exists>body fn. Function D ([''_globals_'', ''_formatters_''] @ xs @ [body]) = Inr fn
             \<and> expr c2 = Some body
             \<and> (\<forall>this arguments. invoke c2 this arguments = fn this ([g, f] @ arguments))"
    by (auto simp: invoke_def)
qed

theorem callable_invocation_witness:
  "cache (module_init :: jsval module) (cacheKey ''foo'' [''x'']) = None
   \<and> (\<exists>c st1. parse plain_deps (JString ''foo'') (JObject [(''g'', JNull)]) (JObject []) [''x'']
                  module_init = (Inr c, st1)
        \<and> invoke c (JString ''ctx'') [JBool True] = JString ''ctx'')
   \<and> (\<exists>c st1. parse2 plain_deps (JString ''foo'') (JObject [(''g'', JNull)]) (JObject []) (Some [''x''])
                  module_init = (Inr c, st1)
        \<and> invoke c (JString ''ctx'') [JBool True] = JString ''ctx'')"
proof -
  have h0: "cache (module_init :: jsval module) (cacheKey ''foo'' [''x'']) = None"
    by (simp add: module_init_def)
  obtain c st1 where h1: "parse plain_deps (JString ''foo'') (JObject [(''g'', JNull)]) (JObject []) [''x''] module_init = (Inr c, st1)"
    by (simp add: eval_defs)
  obtain c2 st3 where h2: "parse2 plain_deps (JString ''foo'') (JObject [(''g'', JNull)]) (JObject []) (Some [''x'']) module_init = (Inr c2, st3)"
    by (simp add: eval_defs)
  note t = callable_invocation [of module_init "''foo''" "[''x'']" plain_deps "JObject [(''g'', JNull)]" "JObject []" c st1 module_init c2 st3]
  have this_fn: "fn = (\<lambda>this arguments. this)" if "Function plain_deps a = Inr fn" for a fn
    using that by (auto simp: plain_deps_def split: if_splits)
  from t h0 h1 obtain body fn where
    b: "Function plain_deps ([''_globals_'', ''_formatters_''] @ [''x''] @ [body]) = Inr fn"
       "\<forall>this arguments. invoke c this arguments = fn this ([JObject [(''g'', JNull)], JObject []] @ arguments)"
    by blast
  from t h0 h2 obtain body2 fn2 where
    b2: "Function plain_deps ([''_globals_'', ''_formatters_''] @ [''x''] @ [body2]) = Inr fn2"
       "\<forall>this arguments. invoke c2 this arguments = fn2 this ([JObject [(''g'', JNull)], JObject []] @ arguments)"
    by blast
  have "invoke c (JString ''ctx'') [JBool True] = JString ''ctx''"
    using b(2) this_fn [OF b(1)] by simp
  moreover have "invoke c2 (JString ''ctx'') [JBool True] = JString ''ctx''"
    using b2(2) this_fn [OF b2(1)] by simp
  ultimately show ?thesis using h0 h1 h2 by simp
qed


subsection \<open>A body the engine rejects\<close>

lemma strings_None_update:
  "strings st = None \<Longrightarrow> st\<lparr>strings := None\<rparr> = st"
  by (cases st) simp

lemma getVariables_strings [simp]:
  "getVariables (st\<lparr>strings := s\<rparr>) g xs = getVariables st g xs"
  by (simp add: getVariables_def)

lemma getVariables_valueProperty [simp]:
  "getVariables (st\<lparr>valueProperty := s\<rparr>) g xs = getVariables st g xs"
  by (simp add: getVariables_def)

lemma parse_body_compile_error:
  assumes "strings st = None"
    and "parseFormatters D (fst (replace_quoteRegex e0)) = Inr e2"
    and "parseExpression D e2 (getVariables st g xs) = Inr e3"
    and "body = replace_emptyQuoteExpr (if isSetter then e3 else return_last_line e3)
                  (snd (replace_quoteRegex e0))"
    and "Function D ([''_globals_'', ''_formatters_''] @ xs @ [body]) = Inl message"
  shows "parse_body D key orig isSetter (JString e0) g f xs st =
           (Inl (Error (''Bad expression: '' @ orig @ [CHR 0x0A] @ ''Compiled expression:'' @
                        [CHR 0x0A] @ body @ [CHR 0x0A] @ message)), st)"
  using assms
  unfolding parse_body_def andThen_def in_strings_def pure_def compileExpression_def
    pullOutStrings_def putInStrings_def
  by (simp add: case_prod_beta Let_def strings_None_update)

text \<open>
  C9. Take a call of \<open>parse\<close> on a text whose key is not in the cache, in the idle module,
  whose two parsers return normally, and let \<open>body\<close> be the text it hands to
  \<open>compileExpression\<close>. When the engine rejects \<open>body\<close> with a message, the call throws
  the error \<^verbatim>\<open>Bad expression: ...\<close> made of the original text, \<open>body\<close> and the message,
  and the cache is as before, with no entry under the key: the same call made again
  compiles again. In the first revision the whole module is as before; in the second
  the cache is.
\<close>

theorem compile_failure_not_cached:
  "(strings st = None \<and> cache st (cacheKey e xs) = None
      \<and> parseFormatters D (fst (replace_quoteRegex e)) = Inr e2
      \<and> parseExpression D e2 (getVariables st g xs) = Inr e3
      \<and> body = replace_emptyQuoteExpr
                 (if xs \<noteq> [] \<and> hd xs = valueProperty st then e3 else return_last_line e3)
                 (snd (replace_quoteRegex e))
      \<and> Function D ([''_globals_'', ''_formatters_''] @ xs @ [body]) = Inl message
    \<longrightarrow> parse D (JString e) g f xs st =
          (Inl (Error (''Bad expression: '' @ e @ [CHR 0x0A] @ ''Compiled expression:'' @
                       [CHR 0x0A] @ body @ [CHR 0x0A] @ message)), st)
        \<and> cache (snd (parse D (JString e) g f xs st)) (cacheKey e xs) = None)
   \<and> (strings st = None \<and> cache st (cacheKey e xs) = None
      \<and> isSetter = (xs \<noteq> [] \<and> hd xs = valueProperty st)
      \<and> e0 = (if isSetter \<and> e \<noteq> [] \<and> hd e = CHR ''!'' then tl e else e)
      \<and> parseFormatters D (fst (replace_quoteRegex e0)) = Inr e2'
      \<and> parseExpression D e2' (getVariables st g xs) = Inr e3'
      \<and> body' = replace_emptyQuoteExpr (if isSetter then e3' else return_last_line e3')
                  (snd (replace_quoteRegex e0))
      \<and> Function D ([''_globals_'', ''_formatters_''] @ xs @ [body']) = Inl message'
    \<longrightarrow> fst (parse2 D (JString e) g f (Some xs) st) =
          Inl (Error (''Bad expression: '' @ e @ [CHR 0x0A] @ ''Compiled expression:'' @
                      [CHR 0x0A] @ body' @ [CHR 0x0A] @ message'))
        \<and> cache (snd (parse2 D (JString e) g f (Some xs) st)) = cache st
        \<and> cache (snd (parse2 D (JString e) g f (Some xs) st)) (cacheKey e xs) = None)"
proof (intro conjI impI)
  assume a: "strings st = None \<and> cache st (cacheKey e xs) = None
      \<and> parseFormatters D (fst (replace_quoteRegex e)) = Inr e2
      \<and> parseExpression D e2 (getVariables st g xs) = Inr e3
      \<and> body = replace_emptyQuoteExpr
                 (if xs \<noteq> [] \<and> hd xs = valueProperty st then e3 else return_last_line e3)
                 (snd (replace_quoteRegex e))
      \<and> Function D ([''_globals_'', ''_formatters_''] @ xs @ [body]) = Inl message"
  have "parse_body D (cacheKey e xs) e (xs \<noteq> [] \<and> hd xs = valueProperty st) (JString e) g f xs st =
          (Inl (Error (''Bad expression: '' @ e @ [CHR 0x0A] @ ''Compiled expression:'' @
                       [CHR 0x0A] @ body @ [CHR 0x0A] @ message)), st)"
  proof (rule parse_body_compile_error)
    show "strings st = None" using a by blast
    show "parseFormatters D (fst (replace_quoteRegex e)) = Inr e2" using a by blast
    show "parseExpression D e2 (getVariables st g xs) = Inr e3" using a by blast
    show "body = replace_emptyQuoteExpr
                 (if xs \<noteq> [] \<and> hd xs = valueProperty st then e3 else return_last_line e3)
                 (snd (replace_quoteRegex e))" using a by blast
    show "Function D ([''_globals_'', ''_formatters_''] @ xs @ [body]) = Inl message"
      using a by blast
  qed
  then show r: "parse D (JString e) g f xs st =
          (Inl (Error (''Bad expression: '' @ e @ [CHR 0x0A] @ ''Compiled expression:'' @
                       [CHR 0x0A] @ body @ [CHR 0x0A] @ message)), st)"
    using a parse_miss [of st e xs D g f] by simp
  show "cache (snd (parse D (JString e) g f xs st)) (cacheKey e xs) = None"
    using r a by simp
next
  assume a: "strings st = None \<and> cache st (cacheKey e xs) = None
      \<and> isSetter = (xs \<noteq> [] \<and> hd xs = valueProperty st)
      \<and> e0 = (if isSetter \<and> e \<noteq> [] \<and> hd e = CHR ''!'' then tl e else e)
      \<and> parseFormatters D (fst (replace_quoteRegex e0)) = Inr e2'
      \<and> parseExpression D e2' (getVariables st g xs) = Inr e3'
      \<and> body' = replace_emptyQuoteExpr (if isSetter then e3' else return_last_line e3')
                  (snd (replace_quoteRegex e0))
      \<and> Function D ([''_globals_'', ''_formatters_''] @ xs @ [body']) = Inl message'"
  define st0 where "st0 = (if isSetter \<and> e \<noteq> [] \<and> hd e = CHR ''!''
                           then st\<lparr>valueProperty := ''!'' @ valueProperty st\<rparr> else st)"
  have p: "parse2 D (JString e) g f (Some xs) st =
             parse_body D (cacheKey e xs) e isSetter (JString e0) g f xs st0"
    using a parse2_miss [of st e xs D g f] by (auto simp: st0_def)
  have "parse_body D (cacheKey e xs) e isSetter (JString e0) g f xs st0 =
          (Inl (Error (''Bad expression: '' @ e @ [CHR 0x0A] @ ''Compiled expression:'' @
                       [CHR 0x0A] @ body' @ [CHR 0x0A] @ message')), st0)"
  proof (rule parse_body_compile_error)
    show "strings st0 = None" using a by (simp add: st0_def)
    show "parseFormatters D (fst (replace_quoteRegex e0)) = Inr e2'" using a by blast
    show "parseExpression D e2' (getVariables st0 g xs) = Inr e3'" using a by (simp add: st0_def)
    show "body' = replace_emptyQuoteExpr (if isSetter then e3' else return_last_line e3')
                  (snd (replace_quoteRegex e0))" using a by blast
    show "Function D ([''_globals_'', ''_formatters_''] @ xs @ [body']) = Inl message'"
      using a by blast
  qed
  then have r: "parse2 D (JString e) g f (Some xs) st =
          (Inl (Error (''Bad expression: '' @ e @ [CHR 0x0A] @ ''Compiled expression:'' @
                       [CHR 0x0A] @ body' @ [CHR 0x0A] @ message')), st0)"
    using p by simp
  show "fst (parse2 D (JString e) g f (Some xs) st) =
          Inl (Error (''Bad expression: '' @ e @ [CHR 0x0A] @ ''Compiled expression:'' @
                      [CHR 0x0A] @ body' @ [CHR 0x0A] @ message'))"
    using r by simp
  show c: "cache (snd (parse2 D (JString e) g f (Some xs) st)) = cache st"
    using r by (simp add: st0_def)
  show "cache (snd (parse2 D (JString e) g f (Some xs) st)) (cacheKey e xs) = None"
    using c a by simp
qed

theorem compile_failure_not_cached_witness:
  "parse plain_deps (JString '')'') JNull JNull [] module_init =
     (Inl (Error (''Bad expression: '' @ '')'' @ [CHR 0x0A] @ ''Compiled expression:'' @
                  [CHR 0x0A] @ ''return )'' @ [CHR 0x0A] @ ''Unexpected token )'')), module_init)
   \<and> cache (snd (parse plain_deps (JString '')'') JNull JNull [] (module_init :: jsval module)))
        (cacheKey '')'' []) = None
   \<and> fst (parse2 plain_deps (JString '')'') JNull JNull (Some []) module_init) =
       Inl (Error (''Bad expression: '' @ '')'' @ [CHR 0x0A] @ ''Compiled expression:'' @
                   [CHR 0x0A] @ ''return )'' @ [CHR 0x0A] @ ''Unexpected token )''))
   \<and> cache (snd (parse2 plain_deps (JString '')'') JNull JNull (Some []) (module_init :: jsval module)))
        (cacheKey '')'' []) = None"
proof -
  have h: "strings (module_init :: jsval module) = None"
          "cache (module_init :: jsval module) (cacheKey '')'' []) = None"
          "parseFormatters plain_deps (fst (replace_quoteRegex '')'')) = Inr '')''"
          "parseExpression plain_deps '')'' (getVariables (module_init :: jsval module) JNull []) = Inr '')''"
          "''return )'' = replace_emptyQuoteExpr
                 (if [] \<noteq> ([] :: string list) \<and> hd [] = valueProperty (module_init :: jsval module)
                  then '')'' else return_last_line '')'')
                 (snd (replace_quoteRegex '')''))"
          "Function plain_deps ([''_globals_'', ''_formatters_''] @ [] @ [''return )'']) = Inl ''Unexpected token )''"
    by (simp_all add: module_init_def plain_deps_def isQuote_def return_last_line_def)
  note t = compile_failure_not_cached [of module_init "'')''" "[]" plain_deps "'')''" JNull "'')''"
      "''return )''" "''Unexpected token )''" JNull False "'')''" "'')''" "'')''" "''return )''" "''Unexpected token )''"]
  show ?thesis using t h by simp
qed



subsection \<open>The expression argument\<close>

text \<open>
  The first revision tests the type of the expression argument before anything else:
  on a value that is not a string it throws its TypeError and leaves the module as it is.
\<close>

lemma parse_not_string:
  "(\<forall>e. v \<noteq> JString e) \<Longrightarrow>
   parse D v g f xs st = (Inl (TypeError (Some ''Invalid expr, must be type String'')), st)"
  by (cases v) (simp_all add: parse_def)

text \<open>
  C7. The second revision has no such test. On \<^verbatim>\<open>null\<close>, in the initial module, \<open>parse\<close>
  throws a TypeError, but only inside \<open>pullOutStrings\<close>, after \<^verbatim>\<open>strings = []\<close>: the table
  stays pending and the next call on a text throws the misuse error of strings.js. And
  once the text \<^verbatim>\<open>null\<close> has been parsed, \<open>parse\<close> on \<^verbatim>\<open>null\<close> finds its key
  \<^verbatim>\<open>null|\<close> in the cache and returns that closure, with no error at all.
\<close>

theorem parse2_not_string:
  "parse2 D JNull g f None module_init = (Inl (TypeError None), module_init\<lparr>strings := Some []\<rparr>)
   \<and> fst (parse2 D (JString ''a'') g f None (snd (parse2 D JNull g f None module_init))) =
       Inl (Error ''putInStrings must be called after pullOutStrings.'')
   \<and> \<not> isl (fst (parse2 plain_deps (JString ''null'') JNull JNull None module_init))
   \<and> parse2 plain_deps JNull JNull JNull None
        (snd (parse2 plain_deps (JString ''null'') JNull JNull None module_init)) =
      parse2 plain_deps (JString ''null'') JNull JNull None
        (snd (parse2 plain_deps (JString ''null'') JNull JNull None module_init))"
  by (simp add: eval_defs)

subsection \<open>The name of the value\<close>

text \<open>
  The first revision never assigns \<^verbatim>\<open>valueProperty\<close>: it is \<^verbatim>\<open>_value_\<close> after any
  sequence of calls, and \<open>parseSetter\<close> registers that name.
\<close>

lemma parse_valueProperty:
  "valueProperty (snd (parse D v g f xs st)) = valueProperty st"
  by (cases v) (simp_all add: parse_def parse_body_valueProperty split: option.splits)

lemma parseSetter_valueProperty:
  "valueProperty (snd (parseSetter D v g f xs st)) = valueProperty st"
  by (cases v) (simp_all add: parseSetter_def parse_valueProperty)

lemma calls_valueProperty:
  "valueProperty (calls D cs st) = valueProperty st"
  unfolding calls_def
proof (induction cs arbitrary: st)
  case Nil
  show ?case by simp
next
  case (Cons x cs)
  have "valueProperty (perform D x st) = valueProperty st"
    by (cases x) (simp_all add: parse_valueProperty parseSetter_valueProperty)
  then show ?case using Cons.IH [of "perform D x st"] by simp
qed

lemma calls_module_init_valueProperty:
  "valueProperty (calls D cs module_init) = ''_value_''"
  by (simp add: calls_valueProperty) (simp add: module_init_def)

lemma parseSetter_registers_value:
  "parseSetter D (JString ''bar'') g f [] (calls D cs module_init) =
     parse D (JString ''bar = _value_'') g f [''_value_''] (calls D cs module_init)"
  by (simp add: parseSetter_def calls_module_init_valueProperty isSpace_def)

text \<open>
  The second revision assigns it: a setter call whose text starts with \<^verbatim>\<open>!\<close> and
  misses the cache puts a \<^verbatim>\<open>!\<close> in front of the name, and nothing takes it away.
\<close>

lemma parse2_valueProperty:
  "valueProperty (snd (parse2 D (JString e) g f (Some xs) st)) =
     (if cache st (cacheKey e xs) = None \<and> xs \<noteq> [] \<and> hd xs = valueProperty st
         \<and> e \<noteq> [] \<and> hd e = CHR ''!''
      then ''!'' @ valueProperty st else valueProperty st)"
  by (auto simp: parse2_def Let_def parse_body_valueProperty split: option.splits)

text \<open>
  C8. In the second revision the name is \<^verbatim>\<open>_value_\<close> in the initial module and
  \<^verbatim>\<open>!_value_\<close> after \<^verbatim>\<open>parseSetter('!foo')\<close>; a following \<^verbatim>\<open>parseSetter('bar')\<close> is
  \<open>parse\<close> with \<^verbatim>\<open>!_value_\<close> as its first extra argument name.
\<close>

theorem parseSetter2_valueProperty:
  "valueProperty (module_init :: 'r module) = ''_value_''
   \<and> valueProperty (snd (parseSetter2 D (JString ''!foo'') g f None (module_init :: 'r module))) = ''!_value_''
   \<and> parseSetter2 D (JString ''bar'') g f None
        (snd (parseSetter2 D (JString ''!foo'') g f None (module_init :: 'r module))) =
      parse2 D (JString ''bar = _value_'') g f (Some [''!_value_''])
        (snd (parseSetter2 D (JString ''!foo'') g f None module_init))"
proof -
  have v: "valueProperty (snd (parseSetter2 D (JString ''!foo'') g f None (module_init :: 'r module))) = ''!_value_''"
    by (simp add: parseSetter2_def parse2_valueProperty isSpace_def) (simp add: module_init_def)
  show ?thesis
    using v by (simp add: parseSetter2_def isSpace_def) (simp add: module_init_def)
qed

text \<open>
  C4. In the second revision \<^verbatim>\<open>parseSetter('!foo')\<close> is \<open>parse\<close> on the text
  \<^verbatim>\<open>!foo = _value_\<close>, not on \<^verbatim>\<open>foo = !_value_\<close>: the module it leaves differs from the one
  that \<open>parse\<close> on \<^verbatim>\<open>foo = !_value_\<close> with the name \<^verbatim>\<open>_value_\<close> leaves, and the body it
  compiles is \<^verbatim>\<open>foo = _value_\<close>, without the negation.
\<close>

theorem parseSetter2_negation:
  "parseSetter2 D (JString ''!foo'') g f None st =
     parse2 D (JString ''!foo = _value_'') g f (Some [valueProperty st]) st
   \<and> snd (parseSetter2 D (JString ''!foo'') g f None (module_init :: 'r module)) \<noteq>
      snd (parse2 D (JString ''foo = !_value_'') g f (Some [''_value_'']) module_init)
   \<and> map_option expr (cache (snd (parseSetter2 plain_deps (JString ''!foo'') JNull JNull None module_init))
        (cacheKey ''!foo = _value_'' [''_value_''])) = Some (Some ''foo = _value_'')"
proof -
  have a: "valueProperty (snd (parseSetter2 D (JString ''!foo'') g f None (module_init :: 'r module))) = ''!_value_''"
    by (simp add: parseSetter2_def parse2_valueProperty isSpace_def) (simp add: module_init_def)
  have b: "valueProperty (snd (parse2 D (JString ''foo = !_value_'') g f (Some [''_value_'']) (module_init :: 'r module))) = ''_value_''"
    by (simp add: parse2_valueProperty) (simp add: module_init_def)
  have c: "snd (parseSetter2 D (JString ''!foo'') g f None (module_init :: 'r module)) \<noteq>
      snd (parse2 D (JString ''foo = !_value_'') g f (Some [''_value_'']) module_init)"
    using a b by auto
  have d: "map_option expr (cache (snd (parseSetter2 plain_deps (JString ''!foo'') JNull JNull None module_init))
        (cacheKey ''!foo = _value_'' [''_value_''])) = Some (Some ''foo = _value_'')"
    by (simp add: eval_defs)
  show ?thesis using c d by (simp add: parseSetter2_def isSpace_def)
qed


subsection \<open>The setter rewrite\<close>

lemma setterRegex_at_pipe:
  "CHR ''|'' \<in> set s \<Longrightarrow> setterRegex_at s \<longleftrightarrow> (\<forall>x\<in>set (before_pipe s). isSpace x)"
  by (induction s) (auto simp: before_pipe_def)

lemma setterRegex_at_no_pipe:
  "CHR ''|'' \<notin> set s \<Longrightarrow> s \<noteq> [] \<Longrightarrow> \<not> setterRegex_at s"
  by (induction s) auto

lemma replace_setterRegex_no_pipe:
  "CHR ''|'' \<notin> set s \<Longrightarrow> replace_setterRegex ins s = s @ ins"
proof (induction s)
  case Nil
  show ?case by simp
next
  case (Cons c cs)
  have "\<not> setterRegex_at (c # cs)"
    using Cons.prems by (intro setterRegex_at_no_pipe) auto
  then show ?case using Cons by (simp del: setterRegex_at.simps)
qed

lemma trailing_space_all:
  assumes "\<forall>x\<in>set t. isSpace x"
  shows "without_trailing_space t = [] \<and> trailing_space t = t"
proof -
  have tw: "takeWhile isSpace (rev t) = rev t" and dw: "dropWhile isSpace (rev t) = []"
    using assms by simp_all
  show ?thesis unfolding without_trailing_space_def trailing_space_def tw dw by simp
qed

lemma trailing_space_Cons:
  assumes "\<not> (\<forall>x\<in>set (c # t). isSpace x)"
  shows "without_trailing_space (c # t) = c # without_trailing_space t
         \<and> trailing_space (c # t) = trailing_space t"
proof (cases "\<forall>x\<in>set t. isSpace x")
  case True
  then have c: "\<not> isSpace c" using assms by auto
  have all: "\<And>x. x \<in> set (rev t) \<Longrightarrow> isSpace x" using True by simp
  have tw: "takeWhile isSpace (rev t) = rev t" and dw: "dropWhile isSpace (rev t) = []"
    using True by simp_all
  have dc: "dropWhile isSpace (rev t @ [c]) = [c]"
    using dropWhile_append2 [of "rev t" isSpace "[c]"] all c by simp
  have tc: "takeWhile isSpace (rev t @ [c]) = rev t"
    using takeWhile_append2 [of "rev t" isSpace "[c]"] all c by simp
  show ?thesis
    unfolding without_trailing_space_def trailing_space_def rev.simps dc tc tw dw by simp
next
  case False
  then obtain x where "x \<in> set (rev t)" "\<not> isSpace x" by auto
  then show ?thesis
    by (simp add: without_trailing_space_def trailing_space_def
          dropWhile_append1 takeWhile_append1)
qed

lemma replace_setterRegex_pipe:
  "CHR ''|'' \<in> set s \<Longrightarrow>
   replace_setterRegex ins s =
     without_trailing_space (before_pipe s) @ ins @ trailing_space (before_pipe s) @ from_pipe s"
proof (induction s)
  case Nil
  then show ?case by simp
next
  case (Cons c cs)
  show ?case
  proof (cases "setterRegex_at (c # cs)")
    case True
    then have "\<forall>x\<in>set (before_pipe (c # cs)). isSpace x"
      using Cons.prems setterRegex_at_pipe by blast
    from trailing_space_all [OF this]
    have "without_trailing_space (before_pipe (c # cs)) @ ins @
            trailing_space (before_pipe (c # cs)) @ from_pipe (c # cs) =
          ins @ before_pipe (c # cs) @ from_pipe (c # cs)" by simp
    also have "\<dots> = ins @ c # cs"
      by (simp add: before_pipe_def from_pipe_def del: takeWhile.simps dropWhile.simps)
    finally show ?thesis using True by (simp del: setterRegex_at.simps)
  next
    case False
    then have c: "c \<noteq> CHR ''|''" by auto
    then have in_cs: "CHR ''|'' \<in> set cs" using Cons.prems by auto
    have bp: "before_pipe (c # cs) = c # before_pipe cs" and fp: "from_pipe (c # cs) = from_pipe cs"
      using c by (simp_all add: before_pipe_def from_pipe_def)
    have "\<not> (\<forall>x\<in>set (before_pipe (c # cs)). isSpace x)"
      using False Cons.prems setterRegex_at_pipe by blast
    then have "\<not> (\<forall>x\<in>set (c # before_pipe cs). isSpace x)"
      unfolding bp .
    from trailing_space_Cons [OF this]
    show ?thesis
      using False Cons.IH [OF in_cs] bp fp by (simp del: setterRegex_at.simps)
  qed
qed

lemma replace_setterRegex_assign_before_pipe:
  "replace_setterRegex ins s = assign_before_pipe ins s"
  by (simp add: assign_before_pipe_def replace_setterRegex_pipe replace_setterRegex_no_pipe)

text \<open>
  The first revision does what the specification says of \<open>parseSetter\<close>: it is \<open>parse\<close> on
  the rewritten text with \<^verbatim>\<open>_value_\<close> put before the extra argument names.
\<close>

lemma parseSetter_is_parse:
  "valueProperty st = ''_value_'' \<Longrightarrow>
   parseSetter D (JString e) g f xs st = parse D (JString (setter_text e)) g f (''_value_'' # xs) st"
  by (simp add: parseSetter_def setter_text_def replace_setterRegex_assign_before_pipe)

lemma parseSetter_is_parse_reachable:
  "parseSetter D (JString e) g f xs (calls D cs module_init) =
     parse D (JString (setter_text e)) g f (''_value_'' # xs) (calls D cs module_init)"
  by (rule parseSetter_is_parse) (rule calls_module_init_valueProperty)

lemma setter_text_examples:
  "setter_text ''user.name | upper'' = ''user.name = _value_ | upper''"
  "setter_text ''foo'' = ''foo = _value_''"
  "setter_text ''!foo'' = ''foo = !_value_''"
  by (simp_all add: setter_text_def assign_before_pipe_def before_pipe_def from_pipe_def
        trailing_space_def without_trailing_space_def isSpace_def)




section \<open>Properties of the guarded chains\<close>

text \<open>
  The text of the model is the text that the test of \<^verbatim>\<open>parseExpression\<close> on \<^verbatim>\<open>foo.bar\<close>
  expects.
\<close>

lemma chain_text_test:
  "chain_text ''foo'' [''bar''] =
     ''var _ref1;'' @ [CHR 0x0A] @ ''((_ref1 = this.foo) == null ? void 0 : _ref1.bar)''"
  by (simp add: chain_text_def chain_expression_def decimal.simps)

text \<open>
  The guards, evaluated: once \<open>obj\<close> has the value \<open>v\<close>, the guarded accesses have the
  value of the accesses on \<open>v\<close>, \<^verbatim>\<open>undefined\<close> from the first one on \<^verbatim>\<open>null\<close> or
  \<^verbatim>\<open>undefined\<close>, and no error.
\<close>

lemma guard_links_eval:
  "eval P this obj t = Inr (v, t1) \<Longrightarrow>
   \<exists>t'. eval P this (guard_links n obj links) t = Inr (short_circuit P v links, t')"
proof (induction links arbitrary: n obj t v t1)
  case Nil
  then show ?case by simp
next
  case (Cons link links)
  show ?case
  proof (cases "nullish v")
    case True
    then show ?thesis using Cons.prems by simp
  next
    case False
    have "eval P this (Member (Ref n) link) (t1(n := v)) = Inr (property P v link, t1(n := v))"
      using False by (simp add: get_def)
    from Cons.IH [OF this, of "Suc n"] obtain t' where
      "eval P this (guard_links (Suc n) (Member (Ref n) link) links) (t1(n := v)) =
         Inr (short_circuit P (property P v link) links, t')"
      by blast
    then show ?thesis using False Cons.prems by simp
  qed
qed

lemma short_circuit_chain:
  "short_circuit P (property P v root) links =
     (if missing_link P v (root # links) then JUndefined else terminal P v (root # links))"
proof (induction links arbitrary: v root)
  case Nil
  show ?case by simp
next
  case (Cons link links)
  show ?case using Cons.IH [of "property P v root" link] by simp
qed

text \<open>
  For a chain \<open>root.links\<close> and a binding context that is an object (not \<^verbatim>\<open>null\<close> or
  \<^verbatim>\<open>undefined\<close>), the guarded expression evaluates without an error, whatever the
  temporaries hold before: to \<^verbatim>\<open>undefined\<close> when some link before the last is \<^verbatim>\<open>null\<close> or
  \<^verbatim>\<open>undefined\<close> on that context, and to the terminal value of the chain otherwise.
\<close>

lemma guarded_chain_value:
  assumes "\<not> nullish this"
  shows "\<exists>t'. eval P this (chain_expression root links) t =
           Inr (if missing_link P this (root # links) then JUndefined
                else terminal P this (root # links), t')"
proof -
  have "eval P this (Member This root) t = Inr (property P this root, t)"
    using assms by (simp add: get_def)
  from guard_links_eval [OF this, of 1 links]
  show ?thesis by (simp add: chain_expression_def short_circuit_chain)
qed


lemma guarded_chain_examples:
  "\<not> nullish (JObject [(''a'', JObject [(''b'', JNull)])])
   \<and> (\<exists>t'. eval (\<lambda>v name. JUndefined) (JObject [(''a'', JObject [(''b'', JNull)])])
              (chain_expression ''a'' [''b'', ''c'']) (\<lambda>n. JUndefined) = Inr (JUndefined, t'))
   \<and> \<not> nullish (JObject [(''a'', JObject [(''b'', JObject [(''c'', JString ''x'')])])])
   \<and> (\<exists>t'. eval (\<lambda>v name. JUndefined)
              (JObject [(''a'', JObject [(''b'', JObject [(''c'', JString ''x'')])])])
              (chain_expression ''a'' [''b'', ''c'']) (\<lambda>n. JUndefined) = Inr (JString ''x'', t'))"
proof -
  have h1: "\<not> nullish (JObject [(''a'', JObject [(''b'', JNull)])])"
    and h2: "\<not> nullish (JObject [(''a'', JObject [(''b'', JObject [(''c'', JString ''x'')])])])"
    by (simp_all add: nullish_def)
  show ?thesis
    using guarded_chain_value [OF h1, of "\<lambda>v name. JUndefined" "''a''" "[''b'', ''c'']" "\<lambda>n. JUndefined"]
          guarded_chain_value [OF h2, of "\<lambda>v name. JUndefined" "''a''" "[''b'', ''c'']" "\<lambda>n. JUndefined"]
          h1 h2
    by (simp add: nullish_def)
qed



subsection \<open>Texts without delimiters\<close>




lemma plain_Nil [simp]: "plain []"
  by (simp add: plain_def)












subsection \<open>The chain through parse\<close>





end
